theory Spec2Isabelle
  imports Complex_Main
begin

section \<open>JavaScript values used by the program\<close>

text \<open>
  JavaScript numbers are idealised as \<^typ>\<open>real\<close> (finite values, exact arithmetic);
  \<open>Date.now()\<close> is an integer number of milliseconds and is modelled as \<^typ>\<open>int\<close>.
  Strings are \<^typ>\<open>string\<close>, a \<^typ>\<open>char\<close> being a code unit below 256. A
  rejected promise or a thrown exception is the left summand of a sum type.
\<close>

datatype js_error =
    Error string
  | PlatformError string

text \<open>\<open>Number.prototype.toString\<close> on an integer: its decimal digits, with a minus sign
  for a negative one.\<close>

definition digit :: "nat \<Rightarrow> char" where
  "digit d = ''0123456789'' ! d"

fun digits :: "nat \<Rightarrow> string" where
  "digits n = (if n < 10 then [digit n] else digits (n div 10) @ [digit (n mod 10)])"

declare digits.simps [simp del]

definition toString :: "int \<Rightarrow> string" where
  "toString i = (if i < 0 then CHR ''-'' # digits (nat (- i)) else digits (nat i))"

text \<open>\<open>String.prototype.startsWith\<close>, \<open>includes\<close> (of a one-character string),
  \<open>split\<close> (on a one-character separator; the result is never empty) and the test
  \<open>!s.trim()\<close> (the string is empty once white space is trimmed). \<open>trim\<close> strips
  JavaScript's white space and line terminators; among the code units below 256 these
  are the tab, the line feed, the vertical tab, the form feed, the carriage return, the
  space and the no-break space.\<close>

definition js_startsWith :: "string \<Rightarrow> string \<Rightarrow> bool" where
  "js_startsWith s p = (take (length p) s = p)"

definition js_includes :: "string \<Rightarrow> char \<Rightarrow> bool" where
  "js_includes s c = (c \<in> set s)"

fun js_split :: "char \<Rightarrow> string \<Rightarrow> string list" where
  "js_split sep [] = [[]]"
| "js_split sep (c # cs) =
     (if c = sep then [] # js_split sep cs
      else (c # hd (js_split sep cs)) # tl (js_split sep cs))"

text \<open>Indexing an array: \<open>None\<close> is JavaScript's \<open>undefined\<close> past the end.\<close>

definition at_index :: "'a list \<Rightarrow> nat \<Rightarrow> 'a option" where
  "at_index xs i = (if i < length xs then Some (xs ! i) else None)"

definition isWhiteSpace :: "char \<Rightarrow> bool" where
  "isWhiteSpace c =
     (c \<in> set [CHR 0x09, CHR 0x0A, CHR 0x0B, CHR 0x0C, CHR 0x0D, CHR 0x20, CHR 0xA0])"

definition js_trim :: "string \<Rightarrow> string" where
  "js_trim s = rev (dropWhile isWhiteSpace (rev (dropWhile isWhiteSpace s)))"

section \<open>Data model (types.ts)\<close>

text \<open>
  \<open>MemeCaption\<close>. The fields \<open>id\<close>, \<open>text\<close>, \<open>x\<close> and \<open>y\<close> carry the prefix \<open>c\<close>:
  \<open>id\<close> is the identity function of HOL, \<open>text\<close> a keyword, and \<open>x\<close>, \<open>y\<close> would
  capture the variables of every later statement. The optional \<open>isDragging\<close> is
  \<open>None\<close> when the key is absent; it is truthy exactly when it is \<open>Some True\<close>.
\<close>

record MemeCaption =
  cid :: string
  ctext :: string
  cx :: real
  cy :: real
  color :: string
  fontSize :: real
  isDragging :: "bool option"

text \<open>\<open>Partial<MemeCaption>\<close>: every key may be absent.\<close>

record PartialMemeCaption =
  p_id :: "string option"
  p_text :: "string option"
  p_x :: "real option"
  p_y :: "real option"
  p_color :: "string option"
  p_fontSize :: "real option"
  p_isDragging :: "bool option"

definition noUpdates :: PartialMemeCaption where
  "noUpdates = \<lparr>p_id = None, p_text = None, p_x = None, p_y = None, p_color = None,
     p_fontSize = None, p_isDragging = None\<rparr>"

text \<open>The object spread \<open>{ ...c, ...updates }\<close>: a key of \<open>updates\<close> wins.\<close>

definition spread :: "MemeCaption \<Rightarrow> PartialMemeCaption \<Rightarrow> MemeCaption" where
  "spread c u =
     \<lparr>cid = (case p_id u of None \<Rightarrow> cid c | Some v \<Rightarrow> v),
      ctext = (case p_text u of None \<Rightarrow> ctext c | Some v \<Rightarrow> v),
      cx = (case p_x u of None \<Rightarrow> cx c | Some v \<Rightarrow> v),
      cy = (case p_y u of None \<Rightarrow> cy c | Some v \<Rightarrow> v),
      color = (case p_color u of None \<Rightarrow> color c | Some v \<Rightarrow> v),
      fontSize = (case p_fontSize u of None \<Rightarrow> fontSize c | Some v \<Rightarrow> v),
      isDragging = (case p_isDragging u of None \<Rightarrow> isDragging c | Some v \<Rightarrow> Some v)\<rparr>"

definition dragging :: "MemeCaption \<Rightarrow> bool" where
  "dragging c = (isDragging c = Some True)"

datatype AppState = IDLE | ANALYZING | EDITING | ERROR

section \<open>Orchestrator state and actions (App.tsx)\<close>

text \<open>The \<open>useState\<close> cells of \<open>App\<close> that the actions below read or write; a
  \<open>null\<close> cell is \<open>None\<close>.\<close>

record app =
  currentImage :: "string option"
  captions :: "MemeCaption list"
  selectedCaptionId :: "string option"
  appState :: AppState
  editPrompt :: string
  errorMsg :: "string option"

definition initialApp :: app where
  "initialApp = \<lparr>currentImage = None, captions = [], selectedCaptionId = None,
     appState = IDLE, editPrompt = [], errorMsg = None\<rparr>"

text \<open>\<open>addCaption\<close>; \<open>now\<close> is what \<open>Date.now()\<close> returns at the call.\<close>

definition addCaption :: "int \<Rightarrow> string \<Rightarrow> app \<Rightarrow> app" where
  "addCaption now txt st =
     (let ident = toString now;
          newCaption = \<lparr>cid = ident, ctext = txt, cx = 300, cy = 50,
            color = ''#FFFFFF'', fontSize = 32, isDragging = None\<rparr>
      in st\<lparr>captions := captions st @ [newCaption], selectedCaptionId := Some ident\<rparr>)"

text \<open>A sequence of add-caption actions, each with its clock reading and its text.\<close>

fun addCaptions :: "(int \<times> string) list \<Rightarrow> app \<Rightarrow> app" where
  "addCaptions [] st = st"
| "addCaptions ((now, txt) # rest) st = addCaptions rest (addCaption now txt st)"

definition updateCaption :: "string \<Rightarrow> PartialMemeCaption \<Rightarrow> app \<Rightarrow> app" where
  "updateCaption ident updates st =
     st\<lparr>captions := map (\<lambda>c. if cid c = ident then spread c updates else c) (captions st)\<rparr>"

definition deleteCaption :: "string \<Rightarrow> app \<Rightarrow> app" where
  "deleteCaption ident st =
     (let st1 = st\<lparr>captions := filter (\<lambda>c. cid c \<noteq> ident) (captions st)\<rparr>
      in if selectedCaptionId st = Some ident then st1\<lparr>selectedCaptionId := None\<rparr> else st1)"

section \<open>Canvas and interaction layer (MemeCanvas component)\<close>

text \<open>A bounding rectangle as \<open>getBoundingClientRect\<close> returns it, and the \<open>img\<close>
  element with its intrinsic size and its rendered rectangle.\<close>

record DOMRect =
  rect_left :: real
  rect_top :: real
  rect_width :: real
  rect_height :: real

record HTMLImageElement =
  naturalWidth :: real
  naturalHeight :: real
  imgRect :: DOMRect

text \<open>
  The 2D drawing context is a state machine: assignments set its attributes and every
  drawing call uses the attributes in force at the call. Each recorded text call therefore
  carries the context as it was when the call was made. The font is kept in parsed form
  (weight, size in pixels, family) instead of the string
  \<open>`700 ${cap.fontSize * scale}px Oswald`\<close>, and the shadow colour as the parsed
  \<open>rgba(r,g,b,a)\<close>. The fill and stroke styles are the strings assigned; the parsing
  and validation of a colour string by the platform is not modelled.
\<close>

datatype css_font = Font nat real string

datatype css_color = Rgba nat nat nat real

fun alpha :: "css_color \<Rightarrow> real" where
  "alpha (Rgba r g b a) = a"

record ctx2d =
  font :: css_font
  fillStyle :: string
  strokeStyle :: string
  lineWidth :: real
  shadowColor :: css_color
  shadowBlur :: real
  shadowOffsetX :: real
  shadowOffsetY :: real
  textAlign :: string
  textBaseline :: string

text \<open>The attributes of a fresh context, as the platform creates it.\<close>

definition freshContext :: ctx2d where
  "freshContext = \<lparr>font = Font 400 10 ''sans-serif'', fillStyle = ''#000000'',
     strokeStyle = ''#000000'', lineWidth = 1, shadowColor = Rgba 0 0 0 0, shadowBlur = 0,
     shadowOffsetX = 0, shadowOffsetY = 0, textAlign = ''start'',
     textBaseline = ''alphabetic''\<rparr>"

text \<open>The platform draws a shadow for a drawing call exactly when the shadow colour is
  not fully transparent and the blur or one of the offsets is not zero.\<close>

definition shadowDrawn :: "ctx2d \<Rightarrow> bool" where
  "shadowDrawn c =
     (alpha (shadowColor c) \<noteq> 0 \<and>
      (shadowBlur c \<noteq> 0 \<or> shadowOffsetX c \<noteq> 0 \<or> shadowOffsetY c \<noteq> 0))"

datatype draw_op =
    DrawImage real real
  | StrokeText string real real ctx2d
  | FillText string real real ctx2d

record canvas =
  canvas_width :: real
  canvas_height :: real
  ctx :: ctx2d
  drawn :: "draw_op list"

text \<open>The body of \<open>captions.forEach\<close> in \<open>generateMemeBlob\<close>: one caption is drawn.\<close>

definition drawCaption :: "real \<Rightarrow> real \<Rightarrow> real \<Rightarrow> canvas \<Rightarrow> MemeCaption \<Rightarrow> canvas" where
  "drawCaption scale offsetX offsetY cv cap =
     (let x = (cx cap - offsetX) * scale;
          y = (cy cap - offsetY) * scale;
          c1 = (ctx cv)\<lparr>font := Font 700 (fontSize cap * scale) ''Oswald'',
                 fillStyle := color cap, strokeStyle := ''black'', lineWidth := 4 * scale,
                 shadowColor := Rgba 0 0 0 0.8, shadowBlur := 4 * scale,
                 shadowOffsetX := 0, shadowOffsetY := 2 * scale\<rparr>;
          d1 = drawn cv @ [StrokeText (ctext cap) x y c1];
          c2 = c1\<lparr>shadowBlur := 0\<rparr>;
          d2 = d1 @ [FillText (ctext cap) x y c2]
      in cv\<lparr>ctx := c2, drawn := d2\<rparr>)"

text \<open>\<open>generateMemeBlob\<close> from the creation of the canvas to the end of the caption
  loop: the canvas takes the natural size, the image is drawn at the origin, the scale
  and the offsets are computed from the two rectangles, and the captions are drawn in
  order.\<close>

definition compose :: "HTMLImageElement \<Rightarrow> DOMRect \<Rightarrow> MemeCaption list \<Rightarrow> canvas" where
  "compose img containerRect caps =
     (let cv0 = \<lparr>canvas_width = naturalWidth img, canvas_height = naturalHeight img,
                 ctx = freshContext, drawn = [DrawImage 0 0]\<rparr>;
          scale = naturalWidth img / rect_width (imgRect img);
          offsetX = rect_left (imgRect img) - rect_left containerRect;
          offsetY = rect_top (imgRect img) - rect_top containerRect;
          cv1 = cv0\<lparr>ctx := (ctx cv0)\<lparr>textAlign := ''center'',
                  textBaseline := ''middle''\<rparr>\<rparr>
      in foldl (drawCaption scale offsetX offsetY) cv1 caps)"

text \<open>
  The two text calls that \<open>drawCaption\<close> adds for one caption, written out: the
  context of the stroke call (\<open>base\<close> is the context before the caption, of which only
  the alignment survives the assignments), and the same context with the blur reset for
  the fill call.
\<close>

definition strokeContext :: "real \<Rightarrow> ctx2d \<Rightarrow> MemeCaption \<Rightarrow> ctx2d" where
  "strokeContext scale base cap =
     base\<lparr>font := Font 700 (fontSize cap * scale) ''Oswald'',
          fillStyle := color cap, strokeStyle := ''black'', lineWidth := 4 * scale,
          shadowColor := Rgba 0 0 0 0.8, shadowBlur := 4 * scale,
          shadowOffsetX := 0, shadowOffsetY := 2 * scale\<rparr>"

definition captionOps :: "real \<Rightarrow> real \<Rightarrow> real \<Rightarrow> ctx2d \<Rightarrow> MemeCaption \<Rightarrow> draw_op list" where
  "captionOps scale offsetX offsetY base cap =
     [StrokeText (ctext cap) ((cx cap - offsetX) * scale) ((cy cap - offsetY) * scale)
        (strokeContext scale base cap),
      FillText (ctext cap) ((cx cap - offsetX) * scale) ((cy cap - offsetY) * scale)
        ((strokeContext scale base cap)\<lparr>shadowBlur := 0\<rparr>)]"



fun fillShadowed :: "draw_op \<Rightarrow> bool" where
  "fillShadowed (FillText t x y c) = shadowDrawn c"
| "fillShadowed (StrokeText t x y c) = False"
| "fillShadowed (DrawImage x y) = False"

text \<open>Scenario A of the specification: a 1600 by 1200 image shown at 800 by 600 in a
  container of the same size, and a caption at (400, 300). The second image is
  letterboxed: shown at 400 by 300 with its corner at (210, 170).\<close>

definition scenarioImage :: HTMLImageElement where
  "scenarioImage = \<lparr>naturalWidth = 1600, naturalHeight = 1200,
     imgRect = \<lparr>rect_left = 0, rect_top = 0, rect_width = 800, rect_height = 600\<rparr>\<rparr>"

definition scenarioContainer :: DOMRect where
  "scenarioContainer = \<lparr>rect_left = 0, rect_top = 0, rect_width = 800, rect_height = 600\<rparr>"

definition scenarioCaption :: MemeCaption where
  "scenarioCaption = \<lparr>cid = ''1000'', ctext = ''NEW TEXT'', cx = 400, cy = 300,
     color = ''#FFFFFF'', fontSize = 32, isDragging = None\<rparr>"


text \<open>What the component is mounted on: the two refs (\<open>None\<close> when \<open>current\<close> is
  \<open>null\<close>; the container is given by its rectangle), whether \<open>getContext('2d')\<close> returns
  a context, and what \<open>canvas.toBlob\<close> does: it calls back with the encoded image, calls
  back with \<open>null\<close>, or throws because the canvas is tainted. The blob is the PNG of the
  canvas.\<close>

datatype blob = Blob canvas

datatype toBlob_outcome = Encoded | EncodedNull | Tainted

record canvas_env =
  imgRef :: "HTMLImageElement option"
  containerRef :: "DOMRect option"
  contextAvailable :: bool
  toBlobOutcome :: toBlob_outcome

definition generateMemeBlob :: "canvas_env \<Rightarrow> MemeCaption list \<Rightarrow> js_error + blob option" where
  "generateMemeBlob env caps =
     (case imgRef env of
        None \<Rightarrow> Inr None
      | Some img \<Rightarrow>
         (case containerRef env of
            None \<Rightarrow> Inr None
          | Some containerRect \<Rightarrow>
             if \<not> contextAvailable env then Inr None
             else (case toBlobOutcome env of
                     Encoded \<Rightarrow> Inr (Some (Blob (compose img containerRect caps)))
                   | EncodedNull \<Rightarrow> Inr None
                   | Tainted \<Rightarrow> Inl (PlatformError ''SecurityError''))))"

text \<open>
  The pointer handlers. The component receives \<open>captions\<close>, \<open>onUpdateCaption\<close> and
  \<open>onSelect\<close> from \<open>App\<close>, so each handler is a function on the state of \<open>App\<close>: the
  list it iterates is the \<open>captions\<close> of the state at the event (the component has
  been rendered again after the previous event), and every \<open>onUpdateCaption\<close> call is
  an \<open>updateCaption\<close> applied in order.
\<close>

record MouseEvent =
  clientX :: real
  clientY :: real

definition handleMouseDown :: "string \<Rightarrow> app \<Rightarrow> app" where
  "handleMouseDown ident st =
     updateCaption ident (noUpdates\<lparr>p_isDragging := Some True\<rparr>)
       (st\<lparr>selectedCaptionId := Some ident\<rparr>)"

definition handleContainerMouseDown :: "app \<Rightarrow> app" where
  "handleContainerMouseDown st = st\<lparr>selectedCaptionId := None\<rparr>"

definition handleMouseMove :: "MouseEvent \<Rightarrow> DOMRect option \<Rightarrow> app \<Rightarrow> app" where
  "handleMouseMove e container st =
     (case container of
        None \<Rightarrow> st
      | Some containerRect \<Rightarrow>
          foldl (\<lambda>s cap.
              if dragging cap then
                (let x = clientX e - rect_left containerRect;
                     y = clientY e - rect_top containerRect;
                     clampedX = max 0 (min x (rect_width containerRect));
                     clampedY = max 0 (min y (rect_height containerRect))
                 in updateCaption (cid cap)
                      (noUpdates\<lparr>p_x := Some clampedX, p_y := Some clampedY\<rparr>) s)
              else s)
            st (captions st))"

definition handleMouseUp :: "app \<Rightarrow> app" where
  "handleMouseUp st =
     foldl (\<lambda>s cap.
         if dragging cap then updateCaption (cid cap) (noUpdates\<lparr>p_isDragging := Some False\<rparr>) s
         else s)
       st (captions st)"

text \<open>The pointer events the component reacts to. A press on a caption does not reach
  the container (\<open>stopPropagation\<close>); the release listener is on the window.\<close>

datatype event =
    CaptionMouseDown string
  | ContainerMouseDown
  | MouseMove MouseEvent "DOMRect option"
  | MouseUp

fun step :: "event \<Rightarrow> app \<Rightarrow> app" where
  "step (CaptionMouseDown ident) st = handleMouseDown ident st"
| "step ContainerMouseDown st = handleContainerMouseDown st"
| "step (MouseMove e container) st = handleMouseMove e container st"
| "step MouseUp st = handleMouseUp st"

text \<open>Every state an event sequence passes through, the first and the last included.\<close>

fun states :: "app \<Rightarrow> event list \<Rightarrow> app list" where
  "states st [] = [st]"
| "states st (e # es) = st # states (step e st) es"

text \<open>A single pointer: a press happens only while the button is up, and is followed
  by a release before the next press. The flag says whether the button is down.\<close>

fun singlePointer :: "bool \<Rightarrow> event list \<Rightarrow> bool" where
  "singlePointer down [] = True"
| "singlePointer down (CaptionMouseDown ident # es) = (\<not> down \<and> singlePointer True es)"
| "singlePointer down (ContainerMouseDown # es) = (\<not> down \<and> singlePointer True es)"
| "singlePointer down (MouseMove e container # es) = singlePointer down es"
| "singlePointer down (MouseUp # es) = singlePointer False es"

definition draggingCount :: "app \<Rightarrow> nat" where
  "draggingCount st = length (filter dragging (captions st))"

text \<open>The invariant of a single-pointer interaction: identifiers are pairwise distinct,
  no caption is dragging while the button is up, and at most one while it is down.\<close>

definition pointerInv :: "bool \<Rightarrow> app \<Rightarrow> bool" where
  "pointerInv down st =
     (distinct (map cid (captions st)) \<and>
      (if down then draggingCount st \<le> 1 else draggingCount st = 0))"

text \<open>A collection of two captions and a container box, for concrete runs.\<close>

definition twoCaptions :: app where
  "twoCaptions = initialApp\<lparr>captions :=
     [\<lparr>cid = ''1000'', ctext = ''TOP'', cx = 300, cy = 50, color = ''#FFFFFF'', fontSize = 32,
        isDragging = None\<rparr>,
      \<lparr>cid = ''1001'', ctext = ''BOTTOM'', cx = 300, cy = 400, color = ''#FFFFFF'', fontSize = 32,
        isDragging = None\<rparr>]\<rparr>"

definition containerBox :: DOMRect where
  "containerBox = \<lparr>rect_left = 10, rect_top = 20, rect_width = 800, rect_height = 600\<rparr>"

section \<open>Image services (geminiService)\<close>

text \<open>\<open>base64ToGenerativePart\<close>. The result is a JavaScript value that may be
  \<open>undefined\<close> (\<open>None\<close>), as an element read from the array of \<open>split\<close> is.\<close>

definition base64ToGenerativePart :: "string \<Rightarrow> string option" where
  "base64ToGenerativePart base64String =
     (if js_includes base64String CHR '',''
      then at_index (js_split CHR '','' base64String) 1
      else Some base64String)"

text \<open>The payload of a data URL: the text after the first comma, up to the next comma
  if there is one.\<close>

definition afterFirstComma :: "string \<Rightarrow> string" where
  "afterFirstComma s =
     takeWhile (\<lambda>c. c \<noteq> CHR '','') (tl (dropWhile (\<lambda>c. c \<noteq> CHR '','') s))"

text \<open>\<open>fileToGenerativePart\<close>. The \<open>FileReader\<close> either reports an error (the promise
  is rejected with the error event), or ends with a result, \<open>null\<close> or a string.\<close>

type_synonym bytes = string

datatype reader_outcome = ReaderError | ReaderResult "string option"

definition fileToGenerativePart :: "(bytes \<Rightarrow> reader_outcome) \<Rightarrow> bytes \<Rightarrow> js_error + string option" where
  "fileToGenerativePart readAsDataURL file =
     (case readAsDataURL file of
        ReaderError \<Rightarrow> Inl (PlatformError ''ProgressEvent'')
      | ReaderResult None \<Rightarrow> Inl (Error ''Failed to read file'')
      | ReaderResult (Some result) \<Rightarrow>
          if result = [] then Inl (Error ''Failed to read file'')
          else Inr (at_index (js_split CHR '','' result) 1))"

text \<open>The platform the services run on: \<open>fetch\<close> (rejected, or a response with its
  \<open>ok\<close> flag, its status text and the outcome of \<open>blob()\<close>), the \<open>FileReader\<close>, the
  loading of an image into a canvas for the fallback, and the remote model.\<close>

record fetch_response =
  ok :: bool
  statusText :: string
  blobOutcome :: "js_error + bytes"

datatype canvas_outcome = NoContext | TaintedCanvas | DataURL string

datatype image_outcome = ImageError | ImageLoaded canvas_outcome

record inline_data =
  mimeType :: string
  idata :: string

record part =
  inlineData :: "inline_data option"

record gen_content =
  parts :: "part list option"

record candidate =
  content :: "gen_content option"

record gen_response =
  candidates :: "candidate list option"

record platform =
  fetch :: "string \<Rightarrow> js_error + fetch_response"
  readAsDataURL :: "bytes \<Rightarrow> reader_outcome"
  loadImage :: "string \<Rightarrow> image_outcome"
  generateContent :: "string \<Rightarrow> string option \<Rightarrow> string \<Rightarrow> js_error + gen_response"

text \<open>The requests a call makes, in order.\<close>

datatype request = FetchRequest string | ImageLoad string

text \<open>The \<open>try\<close> block of \<open>resolveImageInput\<close>, and the promise of its \<open>catch\<close>
  block.\<close>

definition fetchAndConvert :: "platform \<Rightarrow> string \<Rightarrow> js_error + string option" where
  "fetchAndConvert p input =
     (case fetch p input of
        Inl e \<Rightarrow> Inl e
      | Inr response \<Rightarrow>
          if \<not> ok response then Inl (Error (''Failed to fetch image: '' @ statusText response))
          else (case blobOutcome response of
                  Inl e \<Rightarrow> Inl e
                | Inr b \<Rightarrow> fileToGenerativePart (readAsDataURL p) b))"

definition canvasFallback :: "platform \<Rightarrow> string \<Rightarrow> js_error + string option" where
  "canvasFallback p input =
     (case loadImage p input of
        ImageError \<Rightarrow> Inl (Error ''Failed to load image resource'')
      | ImageLoaded NoContext \<Rightarrow> Inl (Error ''Canvas context failed'')
      | ImageLoaded TaintedCanvas \<Rightarrow> Inl (Error ''Canvas tainted, CORS blocked'')
      | ImageLoaded (DataURL dataUrl) \<Rightarrow> Inr (base64ToGenerativePart dataUrl))"

text \<open>\<open>resolveImageInput\<close>: the requests made and the settled promise.\<close>

definition resolveImageInput :: "platform \<Rightarrow> string \<Rightarrow> request list \<times> (js_error + string option)" where
  "resolveImageInput p input =
     (if js_startsWith input ''data:'' then ([], Inr (base64ToGenerativePart input))
      else (case fetchAndConvert p input of
              Inr v \<Rightarrow> ([FetchRequest input], Inr v)
            | Inl error \<Rightarrow> ([FetchRequest input, ImageLoad input], canvasFallback p input)))"

text \<open>\<open>editMemeImage\<close>: the parts of the first candidate, the first part with inline
  data as a data URL.\<close>

definition responseParts :: "gen_response \<Rightarrow> part list" where
  "responseParts response =
     (case candidates response of
        None \<Rightarrow> []
      | Some [] \<Rightarrow> []
      | Some (c # cs) \<Rightarrow>
         (case content c of
            None \<Rightarrow> []
          | Some ct \<Rightarrow> (case parts ct of None \<Rightarrow> [] | Some ps \<Rightarrow> ps)))"

fun firstImage :: "part list \<Rightarrow> js_error + string" where
  "firstImage [] = Inl (Error ''No image generated in response'')"
| "firstImage (pt # rest) =
     (case inlineData pt of
        Some d \<Rightarrow> Inr (''data:'' @ mimeType d @ '';base64,'' @ idata d)
      | None \<Rightarrow> firstImage rest)"

definition editMemeImage :: "platform \<Rightarrow> string \<Rightarrow> string \<Rightarrow> js_error + string" where
  "editMemeImage p imageInput prompt =
     (case snd (resolveImageInput p imageInput) of
        Inl e \<Rightarrow> Inl e
      | Inr cleanBase64 \<Rightarrow>
         (case generateContent p ''gemini-2.5-flash-image'' cleanBase64
                 (''Edit this image: '' @ prompt @
                  ''. Maintain the main subject but apply the requested changes.'') of
            Inl e \<Rightarrow> Inl e
          | Inr response \<Rightarrow> firstImage (responseParts response)))"

section \<open>Asynchronous actions of the orchestrator (App.tsx)\<close>

text \<open>\<open>handleImageEdit\<close>: the guard, the two assignments before the request, the \<open>try\<close>
  and \<open>catch\<close> branches, and the \<open>finally\<close> block applied to both.\<close>

definition falsy :: "string option \<Rightarrow> bool" where
  "falsy v = (case v of None \<Rightarrow> True | Some s \<Rightarrow> s = [])"

definition handleImageEdit :: "platform \<Rightarrow> app \<Rightarrow> app" where
  "handleImageEdit p st =
     (if falsy (currentImage st) \<or> js_trim (editPrompt st) = [] then st
      else
        (let st1 = st\<lparr>appState := EDITING, errorMsg := None\<rparr>;
             st2 = (case editMemeImage p (case currentImage st of Some img \<Rightarrow> img | None \<Rightarrow> [])
                           (editPrompt st) of
                      Inr newImageBase64 \<Rightarrow>
                        st1\<lparr>currentImage := Some newImageBase64, editPrompt := []\<rparr>
                    | Inl e \<Rightarrow>
                        st1\<lparr>errorMsg := Some
                          ''Failed to edit image. The prompt might be too complex or blocked.''\<rparr>)
         in st2\<lparr>appState := IDLE\<rparr>))"

text \<open>What an export action does besides changing the state.\<close>

datatype ui_effect =
    Download blob string
  | NativeShare blob
  | Alert string

text \<open>\<open>handleDownload\<close>. \<open>memeCanvasRef\<close> is \<open>None\<close> when \<open>current\<close> is \<open>null\<close>, else
  what the canvas component is mounted on; \<open>now\<close> is the reading of \<open>Date.now()\<close> for
  the file name.\<close>

definition handleDownload :: "int \<Rightarrow> canvas_env option \<Rightarrow> app \<Rightarrow> app \<times> ui_effect list" where
  "handleDownload now memeCanvasRef st =
     (case memeCanvasRef of
        None \<Rightarrow> (st, [])
      | Some env \<Rightarrow>
         (case generateMemeBlob env (captions st) of
            Inr (Some b) \<Rightarrow> (st, [Download b (''memegen-'' @ toString now @ ''.png'')])
          | Inr None \<Rightarrow> (st\<lparr>errorMsg := Some ''Failed to download meme.''\<rparr>, [])
          | Inl e \<Rightarrow> (st\<lparr>errorMsg := Some ''Failed to download meme.''\<rparr>, [])))"

text \<open>\<open>handleShare\<close>. \<open>navigator.share\<close> may be absent, \<open>canShare\<close> may refuse the
  file, and the share promise may be rejected (the user cancels). The \<open>catch\<close> block
  only writes to the console.\<close>

record navigator =
  shareAvailable :: bool
  canShare :: bool
  shareOutcome :: "js_error option"

definition handleShare :: "int \<Rightarrow> navigator \<Rightarrow> canvas_env option \<Rightarrow> app \<Rightarrow> app \<times> ui_effect list" where
  "handleShare now nav memeCanvasRef st =
     (case memeCanvasRef of
        None \<Rightarrow> (st, [])
      | Some env \<Rightarrow>
         (case generateMemeBlob env (captions st) of
            Inr (Some b) \<Rightarrow>
              if shareAvailable nav \<and> canShare nav then
                (case shareOutcome nav of
                   None \<Rightarrow> (st, [NativeShare b])
                 | Some e \<Rightarrow> (st, [NativeShare b]))
              else (let (st', effects) = handleDownload now memeCanvasRef st
                    in (st', effects @ [Alert
                      ''Image downloaded! You can now upload it to your favorite social platform.'']))
          | Inr None \<Rightarrow> (st, [])
          | Inl e \<Rightarrow> (st, [])))"

text \<open>The compositor fails to produce an image: the promise is rejected or resolves to
  \<open>null\<close>.\<close>

definition compositorFails :: "canvas_env \<Rightarrow> MemeCaption list \<Rightarrow> bool" where
  "compositorFails env caps =
     (case generateMemeBlob env caps of Inr (Some b) \<Rightarrow> False | Inr None \<Rightarrow> True | Inl e \<Rightarrow> True)"

text \<open>A canvas component that is not mounted, and a platform on which every request
  fails.\<close>

definition failingEnv :: canvas_env where
  "failingEnv = \<lparr>imgRef = None, containerRef = None, contextAvailable = False,
     toBlobOutcome = EncodedNull\<rparr>"

definition blockedPlatform :: platform where
  "blockedPlatform =
     \<lparr>fetch = (\<lambda>url. Inl (PlatformError ''TypeError'')),
      readAsDataURL = (\<lambda>b. ReaderError),
      loadImage = (\<lambda>url. ImageError),
      generateContent = (\<lambda>model image prompt. Inl (Error ''blocked''))\<rparr>"

text \<open>A platform on which the fetch succeeds, the reader reports an error, and the
  canvas fallback yields a data URL.\<close>

definition readerFailsPlatform :: platform where
  "readerFailsPlatform =
     \<lparr>fetch = (\<lambda>url. Inr \<lparr>ok = True, statusText = ''OK'', blobOutcome = Inr ''bytes''\<rparr>),
      readAsDataURL = (\<lambda>b. ReaderError),
      loadImage = (\<lambda>url. ImageLoaded (DataURL ''data:image/png;base64,BBBB'')),
      generateContent = (\<lambda>model image prompt. Inl (Error ''blocked''))\<rparr>"

section \<open>Decimal rendering is injective\<close>

lemma digit_inj: "a < 10 \<Longrightarrow> b < 10 \<Longrightarrow> digit a = digit b \<Longrightarrow> a = b"
  unfolding digit_def
  by (rule iffD1 [OF nth_eq_iff_index_eq]) simp_all

lemma digits_nonempty: "digits n \<noteq> []"
  by (subst digits.simps) simp

lemma digits_set: "set (digits n) \<subseteq> set ''0123456789''"
proof (induction n rule: digits.induct)
  case (1 n)
  have d: "\<And>k. k < 10 \<Longrightarrow> digit k \<in> set ''0123456789''"
    unfolding digit_def by (rule nth_mem) simp
  show ?case
  proof (cases "n < 10")
    case True
    then show ?thesis using d [of n] by (subst digits.simps) simp
  next
    case False
    then have "set (digits (n div 10)) \<subseteq> set ''0123456789''" using 1 by simp
    moreover have "digit (n mod 10) \<in> set ''0123456789''" by (rule d) simp
    ultimately show ?thesis using False by (subst digits.simps) simp
  qed
qed

lemma digits_inj: "digits m = digits n \<Longrightarrow> m = n"
proof (induction m arbitrary: n rule: digits.induct)
  case (1 m)
  show ?case
  proof (cases "m < 10")
    case mlt: True
    show ?thesis
    proof (cases "n < 10")
      case True
      with mlt 1(2) show ?thesis
        by (subst (asm) digits.simps, subst (asm) (2) digits.simps) (simp add: digit_inj)
    next
      case False
      with mlt 1(2) have "[digit m] = digits (n div 10) @ [digit (n mod 10)]"
        by (subst (asm) digits.simps, subst (asm) (2) digits.simps) simp
      then show ?thesis using digits_nonempty [of "n div 10"] by simp
    qed
  next
    case mge: False
    show ?thesis
    proof (cases "n < 10")
      case True
      with mge 1(2) have "digits (m div 10) @ [digit (m mod 10)] = [digit n]"
        by (subst (asm) digits.simps, subst (asm) (2) digits.simps) simp
      then show ?thesis using digits_nonempty [of "m div 10"] by simp
    next
      case False
      with mge 1(2) have "digits (m div 10) @ [digit (m mod 10)] = digits (n div 10) @ [digit (n mod 10)]"
        by (subst (asm) digits.simps, subst (asm) (2) digits.simps) simp
      then have a: "digits (m div 10) = digits (n div 10)" and b: "digit (m mod 10) = digit (n mod 10)"
        by simp_all
      from a have "m div 10 = n div 10" using 1(1) mge by simp
      moreover from b have "m mod 10 = n mod 10" by (rule digit_inj [rotated 2]) simp_all
      ultimately show ?thesis by (metis div_mult_mod_eq)
    qed
  qed
qed

lemma toString_inj: "toString a = toString b \<Longrightarrow> a = b"
proof -
  assume eq: "toString a = toString b"
  have nm: "\<And>n. hd (digits n) \<noteq> CHR ''-''"
  proof -
    fix n
    have "hd (digits n) \<in> set (digits n)" using digits_nonempty by simp
    then have "hd (digits n) \<in> set ''0123456789''" using digits_set by blast
    then show "hd (digits n) \<noteq> CHR ''-''" by auto
  qed
  show "a = b"
  proof (cases "a < 0")
    case True
    show ?thesis
    proof (cases "b < 0")
      case True
      with \<open>a < 0\<close> eq have "digits (nat (- a)) = digits (nat (- b))" by (simp add: toString_def)
      then have "nat (- a) = nat (- b)" by (rule digits_inj)
      with True \<open>a < 0\<close> show ?thesis by simp
    next
      case False
      with True eq have "CHR ''-'' # digits (nat (- a)) = digits (nat b)" by (simp add: toString_def)
      then have "hd (digits (nat b)) = CHR ''-''" by (metis list.sel(1))
      then show ?thesis using nm by blast
    qed
  next
    case False
    show ?thesis
    proof (cases "b < 0")
      case True
      with False eq have "digits (nat a) = CHR ''-'' # digits (nat (- b))" by (simp add: toString_def)
      then have "hd (digits (nat a)) = CHR ''-''" by (metis list.sel(1))
      then show ?thesis using nm by blast
    next
      case bf: False
      with False eq have "digits (nat a) = digits (nat b)" by (simp add: toString_def)
      then have "nat a = nat b" by (rule digits_inj)
      with False bf show ?thesis by simp
    qed
  qed
qed

section \<open>Lemmas about the caption collection\<close>

lemma captions_addCaptions:
  "captions (addCaptions acts st) =
     captions st @ map (\<lambda>(now, txt). \<lparr>cid = toString now, ctext = txt, cx = 300, cy = 50,
        color = ''#FFFFFF'', fontSize = 32, isDragging = None\<rparr>) acts"
  by (induction acts st rule: addCaptions.induct) (simp_all add: addCaption_def Let_def)

lemma ids_addCaptions:
  "map cid (captions (addCaptions acts st)) = map cid (captions st) @ map (toString \<circ> fst) acts"
  by (simp add: captions_addCaptions case_prod_unfold comp_def)

lemma ids_distinct_after_adds:
  assumes "distinct (map cid (captions st))" and "distinct (map fst acts)"
    and "\<forall>now \<in> set (map fst acts). toString now \<notin> cid ` set (captions st)"
  shows "distinct (map cid (captions (addCaptions acts st)))"
proof -
  have inj: "inj_on toString (set (map fst acts))"
    by (rule inj_onI) (rule toString_inj)
  have d: "distinct (map toString (map fst acts))"
    by (rule iffD2 [OF distinct_map]) (rule conjI [OF assms(2) inj])
  have e: "set (map cid (captions st)) \<inter> set (map toString (map fst acts)) = {}"
  proof (rule equals0I)
    fix i
    assume "i \<in> set (map cid (captions st)) \<inter> set (map toString (map fst acts))"
    then have a: "i \<in> cid ` set (captions st)" and "i \<in> toString ` set (map fst acts)"
      by (simp_all only: set_map Int_iff)
    then obtain now where "now \<in> set (map fst acts)" and "i = toString now"
      by (elim imageE)
    with assms(3) a show False by metis
  qed
  have "map cid (captions (addCaptions acts st)) =
      map cid (captions st) @ map toString (map fst acts)"
    by (simp add: ids_addCaptions)
  moreover have "distinct (map cid (captions st) @ map toString (map fst acts))"
    by (rule iffD2 [OF distinct_append]) (intro conjI assms(1) d e)
  ultimately show ?thesis by (rule ssubst)
qed

lemma spread_idem: "spread (spread c u) u = spread c u"
  by (simp add: spread_def split: option.splits)

lemma cid_spread: "p_id u = None \<Longrightarrow> cid (spread c u) = cid c"
  by (simp add: spread_def)

lemma captions_updateCaption:
  "captions (updateCaption ident u st) =
     map (\<lambda>c. if cid c = ident then spread c u else c) (captions st)"
  by (simp add: updateCaption_def)

lemma foldl_updates:
  assumes "p_id u = None"
  shows "foldl (\<lambda>s cap. if dragging cap then updateCaption (cid cap) u s else s) st xs =
     st\<lparr>captions := map (\<lambda>c. if cid c \<in> cid ` {d \<in> set xs. dragging d} then spread c u else c)
       (captions st)\<rparr>"
proof (induction xs arbitrary: st)
  case Nil
  show ?case by simp
next
  case (Cons x xs)
  let ?S = "cid ` {d \<in> set xs. dragging d}"
  show ?case
  proof (cases "dragging x")
    case False
    then have "cid ` {d \<in> set (x # xs). dragging d} = ?S" by auto
    with False Cons show ?thesis by simp
  next
    case True
    then have S: "cid ` {d \<in> set (x # xs). dragging d} = insert (cid x) ?S" by auto
    let ?f = "\<lambda>s cap. if dragging cap then updateCaption (cid cap) u s else s"
    have m: "map (\<lambda>c. if cid c \<in> ?S then spread c u else c)
            (map (\<lambda>c. if cid c = cid x then spread c u else c) (captions st)) =
          map (\<lambda>c. if cid c \<in> insert (cid x) ?S then spread c u else c) (captions st)"
      by (rule trans [OF map_map], rule map_cong [OF refl])
         (simp add: cid_spread [OF assms] spread_idem)
    have "foldl ?f st (x # xs) = foldl ?f (updateCaption (cid x) u st) xs"
      using True by simp
    also have "\<dots> = (updateCaption (cid x) u st)\<lparr>captions :=
        map (\<lambda>c. if cid c \<in> ?S then spread c u else c)
          (captions (updateCaption (cid x) u st))\<rparr>"
      by (rule Cons.IH)
    also have "\<dots> = st\<lparr>captions := map (\<lambda>c. if cid c \<in> ?S then spread c u else c)
          (map (\<lambda>c. if cid c = cid x then spread c u else c) (captions st))\<rparr>"
      by (simp add: updateCaption_def)
    also have "\<dots> = st\<lparr>captions :=
        map (\<lambda>c. if cid c \<in> insert (cid x) ?S then spread c u else c) (captions st)\<rparr>"
      by (simp only: m)
    finally show ?thesis by (simp only: S)
  qed
qed

lemma handleMouseMove_captions:
  "captions (handleMouseMove e (Some r) st) =
     map (\<lambda>c. if cid c \<in> cid ` {d \<in> set (captions st). dragging d}
              then spread c (noUpdates\<lparr>p_x := Some (max 0 (min (clientX e - rect_left r) (rect_width r))),
                                      p_y := Some (max 0 (min (clientY e - rect_top r) (rect_height r)))\<rparr>)
              else c) (captions st)"
proof -
  let ?u = "noUpdates\<lparr>p_x := Some (max 0 (min (clientX e - rect_left r) (rect_width r))),
                       p_y := Some (max 0 (min (clientY e - rect_top r) (rect_height r)))\<rparr>"
  have "p_id ?u = None" by (simp add: noUpdates_def)
  then have "foldl (\<lambda>s cap. if dragging cap then updateCaption (cid cap) ?u s else s) st (captions st) =
     st\<lparr>captions := map (\<lambda>c. if cid c \<in> cid ` {d \<in> set (captions st). dragging d} then spread c ?u else c)
       (captions st)\<rparr>"
    by (rule foldl_updates)
  then show ?thesis unfolding handleMouseMove_def Let_def by simp
qed

lemma handleMouseUp_captions:
  "captions (handleMouseUp st) =
     map (\<lambda>c. if cid c \<in> cid ` {d \<in> set (captions st). dragging d}
              then spread c (noUpdates\<lparr>p_isDragging := Some False\<rparr>) else c) (captions st)"
proof -
  let ?u = "noUpdates\<lparr>p_isDragging := Some False\<rparr>"
  have "p_id ?u = None" by (simp add: noUpdates_def)
  then have "foldl (\<lambda>s cap. if dragging cap then updateCaption (cid cap) ?u s else s) st (captions st) =
     st\<lparr>captions := map (\<lambda>c. if cid c \<in> cid ` {d \<in> set (captions st). dragging d} then spread c ?u else c)
       (captions st)\<rparr>"
    by (rule foldl_updates)
  then show ?thesis by (simp add: handleMouseUp_def)
qed

lemma dragged_after_move:
  assumes "c \<in> set (captions (handleMouseMove e (Some r) st))" and "dragging c"
  shows "cx c = max 0 (min (clientX e - rect_left r) (rect_width r)) \<and>
         cy c = max 0 (min (clientY e - rect_top r) (rect_height r))"
proof -
  let ?u = "noUpdates\<lparr>p_x := Some (max 0 (min (clientX e - rect_left r) (rect_width r))),
                       p_y := Some (max 0 (min (clientY e - rect_top r) (rect_height r)))\<rparr>"
  let ?S = "cid ` {d \<in> set (captions st). dragging d}"
  from assms(1) obtain c0 where c0: "c0 \<in> set (captions st)"
      and c: "c = (if cid c0 \<in> ?S then spread c0 ?u else c0)"
    unfolding handleMouseMove_captions by (auto simp only: set_map)
  have keep: "dragging (spread c0 ?u) = dragging c0"
    by (simp add: dragging_def spread_def noUpdates_def)
  from c assms(2) keep have "dragging c0" by (simp split: if_splits)
  with c0 have "cid c0 \<in> ?S" by blast
  with c have "c = spread c0 ?u" by simp
  then show ?thesis by (simp add: spread_def noUpdates_def)
qed

lemma filter_key_le_one:
  "distinct (map f xs) \<Longrightarrow> length (filter (\<lambda>x. f x = a) xs) \<le> Suc 0"
proof (induction xs)
  case Nil
  show ?case by simp
next
  case (Cons x xs)
  show ?case
  proof (cases "f x = a")
    case True
    with Cons.prems have "a \<notin> f ` set xs" by simp
    then have "\<forall>y \<in> set xs. f y \<noteq> a" by (metis imageI)
    then have "filter (\<lambda>x. f x = a) xs = []" by (simp add: filter_empty_conv)
    with True show ?thesis by simp
  next
    case False
    with Cons show ?thesis by simp
  qed
qed

lemma ids_handleMouseDown: "map cid (captions (handleMouseDown i st)) = map cid (captions st)"
  by (simp add: handleMouseDown_def updateCaption_def cid_spread noUpdates_def comp_def
      cong: map_cong)

lemma ids_handleMouseMove: "map cid (captions (handleMouseMove e container st)) = map cid (captions st)"
proof (cases container)
  case None
  then show ?thesis by (simp add: handleMouseMove_def)
next
  case (Some r)
  show ?thesis
    unfolding Some handleMouseMove_captions
    by (simp add: cid_spread noUpdates_def comp_def cong: map_cong)
qed

lemma ids_handleMouseUp: "map cid (captions (handleMouseUp st)) = map cid (captions st)"
  unfolding handleMouseUp_captions
  by (simp add: cid_spread noUpdates_def comp_def cong: map_cong)

lemma count_handleMouseDown:
  assumes "distinct (map cid (captions st))" and "draggingCount st = 0"
  shows "draggingCount (handleMouseDown i st) \<le> Suc 0"
proof -
  from assms(2) have none: "\<forall>c \<in> set (captions st). \<not> dragging c"
    by (simp add: draggingCount_def filter_empty_conv)
  have "filter dragging (map (\<lambda>c. if cid c = i then spread c (noUpdates\<lparr>p_isDragging := Some True\<rparr>) else c)
           (captions st)) =
        map (\<lambda>c. if cid c = i then spread c (noUpdates\<lparr>p_isDragging := Some True\<rparr>) else c)
          (filter (\<lambda>c. cid c = i) (captions st))"
    unfolding filter_map
    by (rule arg_cong [where f = "map _"], rule filter_cong [OF refl])
       (use none in \<open>simp add: dragging_def spread_def comp_def\<close>)
  then have "draggingCount (handleMouseDown i st) = length (filter (\<lambda>c. cid c = i) (captions st))"
    by (simp add: draggingCount_def handleMouseDown_def updateCaption_def)
  with filter_key_le_one [OF assms(1), of i] show ?thesis by simp
qed

lemma count_handleMouseMove: "draggingCount (handleMouseMove e container st) = draggingCount st"
proof (cases container)
  case None
  then show ?thesis by (simp add: handleMouseMove_def)
next
  case (Some r)
  have "filter dragging (captions (handleMouseMove e (Some r) st)) =
      map (\<lambda>c. if cid c \<in> cid ` {d \<in> set (captions st). dragging d}
              then spread c (noUpdates\<lparr>p_x := Some (max 0 (min (clientX e - rect_left r) (rect_width r))),
                                      p_y := Some (max 0 (min (clientY e - rect_top r) (rect_height r)))\<rparr>)
              else c) (filter dragging (captions st))"
    unfolding handleMouseMove_captions filter_map
    by (rule arg_cong [where f = "map _"], rule filter_cong [OF refl])
       (simp add: dragging_def spread_def noUpdates_def comp_def)
  then show ?thesis by (simp add: draggingCount_def Some)
qed

lemma count_handleMouseUp: "draggingCount (handleMouseUp st) = 0"
proof -
  have "\<not> dragging c" if "c \<in> set (captions (handleMouseUp st))" for c
  proof -
    from that obtain c0 where c0: "c0 \<in> set (captions st)"
      and c: "c = (if cid c0 \<in> cid ` {d \<in> set (captions st). dragging d}
                   then spread c0 (noUpdates\<lparr>p_isDragging := Some False\<rparr>) else c0)"
      unfolding handleMouseUp_captions by (auto simp only: set_map)
    show ?thesis
    proof (cases "dragging c0")
      case True
      with c0 have "cid c0 \<in> cid ` {d \<in> set (captions st). dragging d}" by blast
      with c show ?thesis by (simp add: dragging_def spread_def)
    next
      case False
      with c show ?thesis by (simp add: dragging_def spread_def split: if_splits)
    qed
  qed
  then show ?thesis by (simp add: draggingCount_def filter_empty_conv)
qed

lemma pointerInv_states:
  "pointerInv down st \<Longrightarrow> singlePointer down es \<Longrightarrow> \<forall>s \<in> set (states st es). draggingCount s \<le> 1"
proof (induction es arbitrary: st down)
  case Nil
  then show ?case by (simp add: pointerInv_def split: if_splits)
next
  case (Cons ev es)
  from Cons.prems(1) have here: "draggingCount st \<le> 1"
    by (simp add: pointerInv_def split: if_splits)
  have "\<exists>down'. pointerInv down' (step ev st) \<and> singlePointer down' es"
  proof (cases ev)
    case (CaptionMouseDown i)
    with Cons.prems have "pointerInv True (handleMouseDown i st)" and "singlePointer True es"
      by (simp_all add: pointerInv_def ids_handleMouseDown count_handleMouseDown)
    with CaptionMouseDown show ?thesis by auto
  next
    case ContainerMouseDown
    with Cons.prems have "pointerInv True (handleContainerMouseDown st)" and "singlePointer True es"
      by (simp_all add: pointerInv_def handleContainerMouseDown_def draggingCount_def)
    with ContainerMouseDown show ?thesis by auto
  next
    case (MouseMove e container)
    with Cons.prems have "pointerInv down (handleMouseMove e container st)" and "singlePointer down es"
      by (simp_all add: pointerInv_def ids_handleMouseMove count_handleMouseMove split: if_splits)
    with MouseMove show ?thesis by auto
  next
    case MouseUp
    with Cons.prems have "pointerInv False (handleMouseUp st)" and "singlePointer False es"
      by (simp_all add: pointerInv_def ids_handleMouseUp count_handleMouseUp)
    with MouseUp show ?thesis by auto
  qed
  then obtain down' where "pointerInv down' (step ev st)" and "singlePointer down' es" by blast
  then have "\<forall>s \<in> set (states (step ev st) es). draggingCount s \<le> 1" by (rule Cons.IH)
  with here show ?case by simp
qed

section \<open>Lemmas about the guard of the image edit\<close>

lemma handleImageEdit_guard:
  "falsy (currentImage st) \<or> js_trim (editPrompt st) = [] \<Longrightarrow> handleImageEdit p st = st"
  by (auto simp add: handleImageEdit_def)

lemma blank_prompts:
  "js_trim [] = [] \<and> js_trim [CHR 0xA0] = [] \<and> js_trim [CHR 0x20, CHR 0x09, CHR 0xA0, CHR 0x0A] = []"
  by (simp add: js_trim_def isWhiteSpace_def)

section \<open>Lemmas about the compositor\<close>

lemma drawCaption_eq:
  "drawCaption scale offsetX offsetY cv cap =
     cv\<lparr>ctx := (strokeContext scale (ctx cv) cap)\<lparr>shadowBlur := 0\<rparr>,
        drawn := drawn cv @ captionOps scale offsetX offsetY (ctx cv) cap\<rparr>"
  by (simp add: drawCaption_def Let_def strokeContext_def captionOps_def)

lemma strokeContext_again:
  "strokeContext scale ((strokeContext scale base cap0)\<lparr>shadowBlur := 0\<rparr>) cap =
     strokeContext scale base cap"
  by (simp add: strokeContext_def)

lemma captionOps_again:
  "captionOps scale offsetX offsetY ((strokeContext scale base cap0)\<lparr>shadowBlur := 0\<rparr>) cap =
     captionOps scale offsetX offsetY base cap"
  by (simp add: captionOps_def strokeContext_again)

lemma drawn_foldl_drawCaption:
  "drawn (foldl (drawCaption scale offsetX offsetY) cv caps) =
     drawn cv @ concat (map (captionOps scale offsetX offsetY (ctx cv)) caps)"
proof (induction caps arbitrary: cv)
  case Nil
  show ?case by simp
next
  case (Cons cap caps)
  show ?case
    by (simp add: Cons.IH) (simp add: drawCaption_eq captionOps_again)
qed

lemma drawn_compose:
  "drawn (compose img r caps) =
     DrawImage 0 0 #
     concat (map (captionOps (naturalWidth img / rect_width (imgRect img))
                    (rect_left (imgRect img) - rect_left r)
                    (rect_top (imgRect img) - rect_top r)
                    (freshContext\<lparr>textAlign := ''center'', textBaseline := ''middle''\<rparr>)) caps)"
  by (simp add: compose_def Let_def drawn_foldl_drawCaption)

lemma size_compose:
  "canvas_width (compose img r caps) = naturalWidth img \<and>
   canvas_height (compose img r caps) = naturalHeight img"
proof -
  have "canvas_width (foldl (drawCaption s ox oy) cv caps) = canvas_width cv \<and>
        canvas_height (foldl (drawCaption s ox oy) cv caps) = canvas_height cv" for s ox oy cv
    by (induction caps arbitrary: cv) (simp_all add: drawCaption_eq)
  then show ?thesis by (simp add: compose_def Let_def)
qed

section \<open>Lemmas about the image services\<close>

lemma js_split_nonempty: "js_split sep s \<noteq> []"
  by (induction s) simp_all

lemma hd_js_split: "hd (js_split sep s) = takeWhile (\<lambda>c. c \<noteq> sep) s"
  by (induction s) simp_all

lemma at_index_Cons_tl: "r \<noteq> [] \<Longrightarrow> at_index (x # tl r) (Suc 0) = at_index r (Suc 0)"
  by (cases r) (simp_all add: at_index_def)

lemma second_of_js_split:
  "sep \<in> set s \<Longrightarrow>
     at_index (js_split sep s) (Suc 0) =
       Some (takeWhile (\<lambda>c. c \<noteq> sep) (tl (dropWhile (\<lambda>c. c \<noteq> sep) s)))"
proof (induction s)
  case Nil
  then show ?case by simp
next
  case (Cons c cs)
  show ?case
  proof (cases "c = sep")
    case True
    have "at_index ([] # js_split sep cs) (Suc 0) = Some (hd (js_split sep cs))"
      using js_split_nonempty [of sep cs]
      by (cases "js_split sep cs") (simp_all add: at_index_def)
    with True show ?thesis by (simp add: hd_js_split)
  next
    case False
    with Cons.prems have "sep \<in> set cs" by simp
    then have "at_index (js_split sep cs) (Suc 0) =
        Some (takeWhile (\<lambda>c. c \<noteq> sep) (tl (dropWhile (\<lambda>c. c \<noteq> sep) cs)))"
      by (rule Cons.IH)
    with False show ?thesis
      by (simp add: at_index_Cons_tl [OF js_split_nonempty])
  qed
qed

lemma base64ToGenerativePart_comma:
  "js_includes s CHR '','' \<Longrightarrow>
     base64ToGenerativePart s =
       Some (takeWhile (\<lambda>c. c \<noteq> CHR '','') (tl (dropWhile (\<lambda>c. c \<noteq> CHR '','') s)))"
  by (simp add: base64ToGenerativePart_def js_includes_def second_of_js_split)

lemma canvasFallback_cases:
  "(loadImage p input = ImageError \<longrightarrow>
      canvasFallback p input = Inl (Error ''Failed to load image resource'')) \<and>
   (loadImage p input = ImageLoaded NoContext \<longrightarrow>
      canvasFallback p input = Inl (Error ''Canvas context failed'')) \<and>
   (loadImage p input = ImageLoaded TaintedCanvas \<longrightarrow>
      canvasFallback p input = Inl (Error ''Canvas tainted, CORS blocked'')) \<and>
   (\<forall>d. loadImage p input = ImageLoaded (DataURL d) \<longrightarrow>
      canvasFallback p input = Inr (base64ToGenerativePart d))"
  by (simp add: canvasFallback_def)

lemma fetchAndConvert_rejected:
  "fetch p input = Inl e \<Longrightarrow> fetchAndConvert p input = Inl e"
  by (simp add: fetchAndConvert_def)

lemma fetchAndConvert_not_ok:
  "fetch p input = Inr response \<Longrightarrow> \<not> ok response \<Longrightarrow>
     fetchAndConvert p input = Inl (Error (''Failed to fetch image: '' @ statusText response))"
  by (simp add: fetchAndConvert_def)

lemma fetchAndConvert_converted:
  "fetch p input = Inr response \<Longrightarrow> ok response \<Longrightarrow> blobOutcome response = Inr b \<Longrightarrow>
   readAsDataURL p b = ReaderResult (Some url) \<Longrightarrow> js_includes url CHR '','' \<Longrightarrow>
     fetchAndConvert p input = Inr (Some (afterFirstComma url))"
  by (auto simp add: fetchAndConvert_def fileToGenerativePart_def js_includes_def
      afterFirstComma_def second_of_js_split)

section \<open>Claims about the compositor\<close>



text \<open>
  Claim C2. The claim is that, for every caption, the stroke is drawn first with the
  drop shadow and the fill is then drawn with no shadow in force. The code does not meet
  it. In Scenario A the export makes three calls: the image, the stroke with the shadow
  \<open>rgba(0,0,0,0.8)\<close>, blur 8, offset (0, 4), and the fill with the blur at 0 but the
  same shadow colour and the offset (0, 4) still set, for which the platform draws a
  shadow. The assignment before \<open>fillText\<close> resets the blur only.
\<close>

theorem C2_fill_pass_still_shadowed:
  "drawn (compose scenarioImage scenarioContainer [scenarioCaption]) =
     [DrawImage 0 0,
      StrokeText ''NEW TEXT'' 800 600
        \<lparr>font = Font 700 64 ''Oswald'', fillStyle = ''#FFFFFF'', strokeStyle = ''black'',
         lineWidth = 8, shadowColor = Rgba 0 0 0 0.8, shadowBlur = 8, shadowOffsetX = 0,
         shadowOffsetY = 4, textAlign = ''center'', textBaseline = ''middle''\<rparr>,
      FillText ''NEW TEXT'' 800 600
        \<lparr>font = Font 700 64 ''Oswald'', fillStyle = ''#FFFFFF'', strokeStyle = ''black'',
         lineWidth = 8, shadowColor = Rgba 0 0 0 0.8, shadowBlur = 0, shadowOffsetX = 0,
         shadowOffsetY = 4, textAlign = ''center'', textBaseline = ''middle''\<rparr>] \<and>
   fillShadowed (drawn (compose scenarioImage scenarioContainer [scenarioCaption]) ! 2)"
  by (simp add: drawn_compose captionOps_def strokeContext_def shadowDrawn_def freshContext_def
      scenarioImage_def scenarioContainer_def scenarioCaption_def)

section \<open>Claims about the interaction layer\<close>

text \<open>
  Claim C3. On a container box with non-negative width and height, after a pointer-move
  step every dragged caption is at \<open>(pointerX - containerLeft, pointerY - containerTop)\<close>
  clamped to the box: \<open>x = max 0 (min (pointerX - containerLeft) width)\<close>, likewise
  \<open>y\<close>, so \<open>0 \<le> x \<le> width\<close> and \<open>0 \<le> y \<le> height\<close>. The same bounds hold after
  every non-empty sequence of pointer-move steps, from any state.
\<close>

theorem C3_drag_position_clamped:
  assumes "0 \<le> rect_width r" and "0 \<le> rect_height r"
  shows "(\<forall>c \<in> set (captions (handleMouseMove e (Some r) st)). dragging c \<longrightarrow>
            cx c = max 0 (min (clientX e - rect_left r) (rect_width r)) \<and>
            cy c = max 0 (min (clientY e - rect_top r) (rect_height r)) \<and>
            0 \<le> cx c \<and> cx c \<le> rect_width r \<and> 0 \<le> cy c \<and> cy c \<le> rect_height r) \<and>
         (\<forall>c \<in> set (captions (foldl (\<lambda>s ev. handleMouseMove ev (Some r) s) st (es @ [e]))).
            dragging c \<longrightarrow>
            0 \<le> cx c \<and> cx c \<le> rect_width r \<and> 0 \<le> cy c \<and> cy c \<le> rect_height r)"
proof -
  have one: "cx c = max 0 (min (clientX e - rect_left r) (rect_width r)) \<and>
            cy c = max 0 (min (clientY e - rect_top r) (rect_height r)) \<and>
            0 \<le> cx c \<and> cx c \<le> rect_width r \<and> 0 \<le> cy c \<and> cy c \<le> rect_height r"
    if "c \<in> set (captions (handleMouseMove e (Some r) s))" and "dragging c" for c s
  proof -
    from that have "cx c = max 0 (min (clientX e - rect_left r) (rect_width r)) \<and>
         cy c = max 0 (min (clientY e - rect_top r) (rect_height r))"
      by (rule dragged_after_move)
    with assms show ?thesis by simp
  qed
  have "foldl (\<lambda>s ev. handleMouseMove ev (Some r) s) st (es @ [e]) =
      handleMouseMove e (Some r) (foldl (\<lambda>s ev. handleMouseMove ev (Some r) s) st es)"
    by simp
  with one show ?thesis by metis
qed

text \<open>The first of two captions is pressed and the pointer moves to (1000, 5) over a
  container at (10, 20) of size 800 by 600: the dragged caption ends at (800, 0), the
  other one stays at (300, 400).\<close>

theorem C3_witness:
  "(0::real) \<le> rect_width containerBox \<and> (0::real) \<le> rect_height containerBox \<and>
   map (\<lambda>c. (cx c, cy c))
     (captions (handleMouseMove \<lparr>clientX = 1000, clientY = 5\<rparr> (Some containerBox)
        (handleMouseDown ''1000'' twoCaptions))) = [(800, 0), (300, 400)]"
proof -
  have a: "0 \<le> rect_width containerBox" and b: "0 \<le> rect_height containerBox"
    by (simp_all add: containerBox_def)
  from C3_drag_position_clamped [OF a b, of "\<lparr>clientX = 1000, clientY = 5\<rparr>"
      "handleMouseDown ''1000'' twoCaptions" "[]"] a b
  show ?thesis
    by (simp add: handleMouseMove_def handleMouseDown_def updateCaption_def spread_def
        noUpdates_def dragging_def twoCaptions_def initialApp_def containerBox_def Let_def)
qed

text \<open>
  Claim C4, as amended. A press marks every caption that has the pressed identifier,
  and nothing makes identifiers distinct. From a collection with pairwise distinct
  identifiers in which no caption is dragging, in every state that a single-pointer event sequence passes through (a press
  only while the button is up, a release ending every drag, moves anywhere), at most one
  caption is dragging.
\<close>

theorem C4_at_most_one_dragging:
  assumes "distinct (map cid (captions st))" and "draggingCount st = 0"
    and "singlePointer False es"
  shows "\<forall>s \<in> set (states st es). draggingCount s \<le> 1"
proof (rule pointerInv_states)
  show "pointerInv False st" using assms(1,2) by (simp add: pointerInv_def)
  show "singlePointer False es" by (rule assms(3))
qed

text \<open>Press on the first caption, move, release, press on the second, release: the
  number of dragging captions is 0, 1, 1, 0, 1, 0.\<close>

theorem C4_witness:
  "map draggingCount (states twoCaptions
     [CaptionMouseDown ''1000'', MouseMove \<lparr>clientX = 1000, clientY = 5\<rparr> (Some containerBox),
      MouseUp, CaptionMouseDown ''1001'', MouseUp]) = [0, 1, 1, 0, 1, 0]"
proof -
  have a: "distinct (map cid (captions twoCaptions))"
    by (simp add: twoCaptions_def initialApp_def)
  have b: "draggingCount twoCaptions = 0"
    by (simp add: twoCaptions_def initialApp_def draggingCount_def dragging_def)
  have c: "singlePointer False
     [CaptionMouseDown ''1000'', MouseMove \<lparr>clientX = 1000, clientY = 5\<rparr> (Some containerBox),
      MouseUp, CaptionMouseDown ''1001'', MouseUp]"
    by simp
  from C4_at_most_one_dragging [OF a b c]
  show ?thesis
    by (simp add: handleMouseMove_def handleMouseDown_def handleMouseUp_def updateCaption_def
        spread_def noUpdates_def dragging_def draggingCount_def twoCaptions_def initialApp_def
        containerBox_def Let_def)
qed

text \<open>The claim as stated fails: after two add-caption actions within the same
  millisecond both captions have the identifier \<open>1000\<close>; one press on it and one release
  is a single-pointer sequence, and while the button is down two captions are
  dragging.\<close>

theorem C4_counterexample:
  "singlePointer False [CaptionMouseDown ''1000'', MouseUp] \<and>
   map draggingCount
     (states (addCaptions [(1000, ''A''), (1000, ''B'')] initialApp)
        [CaptionMouseDown ''1000'', MouseUp]) = [0, 2, 0]"
  by (simp add: addCaption_def Let_def handleMouseDown_def handleMouseUp_def updateCaption_def
      spread_def noUpdates_def dragging_def draggingCount_def initialApp_def
      toString_def digits.simps digit_def)

section \<open>Claims about the orchestrator\<close>

text \<open>
  Claim C5, as amended. The identifier of a new caption is the decimal rendering of the
  clock reading, and nothing checks it against the collection. When the collection has
  pairwise distinct identifiers, the clock readings of the add-caption actions are
  pairwise distinct, and none of them renders to an identifier already in the
  collection, then after every prefix of the actions the identifiers in the collection
  are pairwise distinct.
\<close>

theorem C5_ids_unique_for_distinct_clock_readings:
  assumes "distinct (map cid (captions st))" and "distinct (map fst acts)"
    and "\<forall>now \<in> set (map fst acts). toString now \<notin> cid ` set (captions st)"
  shows "distinct (map cid (captions (addCaptions (take n acts) st)))"
proof (rule ids_distinct_after_adds)
  show "distinct (map cid (captions st))" by (rule assms(1))
  have t: "map fst (take n acts) = take n (map fst acts)" by (simp add: take_map)
  then show "distinct (map fst (take n acts))"
    using assms(2) by (simp only: distinct_take)
  have "set (map fst (take n acts)) \<subseteq> set (map fst acts)"
    unfolding t by (rule set_take_subset)
  then show "\<forall>now \<in> set (map fst (take n acts)). toString now \<notin> cid ` set (captions st)"
    using assms(3) by (meson subsetD)
qed

text \<open>Two add-caption actions with the clock readings 1000 and 1001 on the empty
  collection.\<close>

theorem C5_witness:
  "distinct (map cid (captions (addCaptions [(1000, ''A''), (1001, ''B'')] initialApp)))"
  using C5_ids_unique_for_distinct_clock_readings [of initialApp "[(1000, ''A''), (1001, ''B'')]" 2]
  by (simp add: initialApp_def)

text \<open>The claim as stated fails: two add-caption actions within the same millisecond
  (clock reading 1000 twice) give two captions with the identifier \<open>1000\<close>.\<close>

theorem C5_counterexample:
  "\<not> distinct (map cid (captions (addCaptions [(1000, ''A''), (1000, ''B'')] initialApp)))"
  by (simp add: addCaption_def Let_def)

text \<open>
  Claim C6. When an image is present and the prompt is not blank (it has a character
  that \<open>trim\<close> keeps), so that the request is made, the request status is idle after \<open>handleImageEdit\<close> whatever the outcome of the request; and when the
  request fails, the background image and the caption collection are as before, the one
  error message is set, and nothing else in the state changes.
\<close>

theorem C6_failed_edit_leaves_state:
  assumes "currentImage st = Some img" and "img \<noteq> []" and "js_trim (editPrompt st) \<noteq> []"
  shows "appState (handleImageEdit p st) = IDLE \<and>
    (\<forall>e. editMemeImage p img (editPrompt st) = Inl e \<longrightarrow>
       currentImage (handleImageEdit p st) = currentImage st \<and>
       captions (handleImageEdit p st) = captions st \<and>
       errorMsg (handleImageEdit p st) =
         Some ''Failed to edit image. The prompt might be too complex or blocked.'' \<and>
       handleImageEdit p st =
         st\<lparr>appState := IDLE, errorMsg :=
           Some ''Failed to edit image. The prompt might be too complex or blocked.''\<rparr>)"
  using assms
  by (auto simp add: handleImageEdit_def falsy_def Let_def split: sum.splits)

text \<open>An edit of a data-URL image on a platform whose model call is rejected.\<close>

theorem C6_witness:
  "handleImageEdit blockedPlatform
     (initialApp\<lparr>currentImage := Some ''data:image/png;base64,AAAA'', editPrompt := ''add a hat'',
        appState := IDLE\<rparr>) =
   initialApp\<lparr>currentImage := Some ''data:image/png;base64,AAAA'', editPrompt := ''add a hat'',
        appState := IDLE,
        errorMsg := Some ''Failed to edit image. The prompt might be too complex or blocked.''\<rparr>"
proof -
  let ?st = "initialApp\<lparr>currentImage := Some ''data:image/png;base64,AAAA'',
      editPrompt := ''add a hat'', appState := IDLE\<rparr>"
  have a: "currentImage ?st = Some ''data:image/png;base64,AAAA''" by simp
  have b: "''data:image/png;base64,AAAA'' \<noteq> []" by simp
  have c: "js_trim (editPrompt ?st) \<noteq> []" by (simp add: js_trim_def isWhiteSpace_def)
  have d: "editMemeImage blockedPlatform ''data:image/png;base64,AAAA'' (editPrompt ?st) =
      Inl (Error ''blocked'')"
    by (simp add: editMemeImage_def resolveImageInput_def js_startsWith_def blockedPlatform_def)
  from C6_failed_edit_leaves_state [OF a b c, of blockedPlatform] d
  show ?thesis by (simp add: initialApp_def)
qed

text \<open>
  Claim C7, as amended. Whenever the compositor fails to produce an image (the promise
  is rejected or resolves to \<open>null\<close>), the download action sets the error message
  \<open>Failed to download meme.\<close> and downloads nothing.
\<close>

theorem C7_download_reports_failure:
  "compositorFails env (captions st) \<longrightarrow>
     handleDownload now (Some env) st = (st\<lparr>errorMsg := Some ''Failed to download meme.''\<rparr>, [])"
  by (simp add: compositorFails_def handleDownload_def split: sum.splits option.splits)

text \<open>A canvas component whose image is not mounted: the download action reports the
  failure.\<close>

theorem C7_witness:
  "compositorFails failingEnv [] \<and>
   errorMsg (fst (handleDownload 1000 (Some failingEnv) initialApp)) = Some ''Failed to download meme.''"
proof -
  have f: "compositorFails failingEnv (captions initialApp)"
    by (simp add: compositorFails_def generateMemeBlob_def failingEnv_def initialApp_def)
  with C7_download_reports_failure [of failingEnv initialApp 1000]
  show ?thesis by (simp add: initialApp_def)
qed

text \<open>The claim as stated fails for the share action: with the same failing compositor
  the share action leaves the error message empty.\<close>

theorem C7_counterexample:
  "compositorFails failingEnv (captions initialApp) \<and>
   errorMsg (fst (handleShare 1000 \<lparr>shareAvailable = True, canShare = True, shareOutcome = None\<rparr>
      (Some failingEnv) initialApp)) = None"
  by (simp add: compositorFails_def generateMemeBlob_def failingEnv_def initialApp_def
      handleShare_def)

text \<open>
  Claim C8. On any collection, the add-caption action with the text \<open>NEW TEXT\<close> appends
  one caption, so the length grows by one; the new caption is at (300, 50), has the colour
  \<open>#FFFFFF\<close> and the font size 32, and its identifier becomes the selected identifier.
\<close>

theorem C8_addCaption_defaults:
  "captions (addCaption now ''NEW TEXT'' st) =
     captions st @ [\<lparr>cid = toString now, ctext = ''NEW TEXT'', cx = 300, cy = 50,
        color = ''#FFFFFF'', fontSize = 32, isDragging = None\<rparr>] \<and>
   length (captions (addCaption now ''NEW TEXT'' st)) = length (captions st) + 1 \<and>
   cx (last (captions (addCaption now ''NEW TEXT'' st))) = 300 \<and>
   cy (last (captions (addCaption now ''NEW TEXT'' st))) = 50 \<and>
   color (last (captions (addCaption now ''NEW TEXT'' st))) = ''#FFFFFF'' \<and>
   fontSize (last (captions (addCaption now ''NEW TEXT'' st))) = 32 \<and>
   ctext (last (captions (addCaption now ''NEW TEXT'' st))) = ''NEW TEXT'' \<and>
   selectedCaptionId (addCaption now ''NEW TEXT'' st) =
     Some (cid (last (captions (addCaption now ''NEW TEXT'' st))))"
  by (simp add: addCaption_def Let_def)

section \<open>Claims about the image services\<close>

text \<open>
  Claim C9, as amended. An input that starts with \<open>data:\<close> and has a comma resolves,
  with no request made, to its payload: the text after the first comma, up to the next
  comma if there is one. Any other input is fetched; when the response is ok, its blob is
  read, and the data URL read has a comma, the call resolves to the payload of that data
  URL after the single fetch. When the fetch is rejected, the response is not ok,
  \<open>blob()\<close> is rejected, the reader reports an error, or the reader ends with \<open>null\<close>
  or the empty string, the image load of the canvas fallback follows the fetch and
  decides the call: a load error, a missing 2D context and a tainted canvas each reject
  it with their error, and a data URL with a comma resolves it to the payload.
\<close>

theorem C9_resolveImageInput_paths:
  "(js_startsWith input ''data:'' \<and> js_includes input CHR '','' \<longrightarrow>
      resolveImageInput p input = ([], Inr (Some (afterFirstComma input)))) \<and>
   (\<not> js_startsWith input ''data:'' \<longrightarrow>
      (\<forall>response b url.
         fetch p input = Inr response \<and> ok response \<and> blobOutcome response = Inr b \<and>
         readAsDataURL p b = ReaderResult (Some url) \<and> js_includes url CHR '','' \<longrightarrow>
         resolveImageInput p input = ([FetchRequest input], Inr (Some (afterFirstComma url)))) \<and>
      ((\<exists>e. fetch p input = Inl e) \<or>
       (\<exists>response. fetch p input = Inr response \<and>
          (\<not> ok response \<or>
           (\<exists>e. blobOutcome response = Inl e) \<or>
           (\<exists>b. blobOutcome response = Inr b \<and>
              (readAsDataURL p b = ReaderError \<or>
               readAsDataURL p b = ReaderResult None \<or>
               readAsDataURL p b = ReaderResult (Some []))))) \<longrightarrow>
       fst (resolveImageInput p input) = [FetchRequest input, ImageLoad input] \<and>
       (loadImage p input = ImageError \<longrightarrow>
          snd (resolveImageInput p input) = Inl (Error ''Failed to load image resource'')) \<and>
       (loadImage p input = ImageLoaded NoContext \<longrightarrow>
          snd (resolveImageInput p input) = Inl (Error ''Canvas context failed'')) \<and>
       (loadImage p input = ImageLoaded TaintedCanvas \<longrightarrow>
          snd (resolveImageInput p input) = Inl (Error ''Canvas tainted, CORS blocked'')) \<and>
       (\<forall>d. loadImage p input = ImageLoaded (DataURL d) \<and> js_includes d CHR '','' \<longrightarrow>
          snd (resolveImageInput p input) = Inr (Some (afterFirstComma d))) \<and>
       ((\<forall>d. loadImage p input \<noteq> ImageLoaded (DataURL d)) \<longrightarrow>
          (\<exists>msg. snd (resolveImageInput p input) = Inl (Error msg)))))"
proof -
  have data: "base64ToGenerativePart s = Some (afterFirstComma s)" if "js_includes s CHR '',''" for s
    using that by (simp add: base64ToGenerativePart_comma afterFirstComma_def)
  have direct: "\<not> js_startsWith input ''data:'' \<Longrightarrow>
      fetch p input = Inr response \<Longrightarrow> ok response \<Longrightarrow> blobOutcome response = Inr b \<Longrightarrow>
      readAsDataURL p b = ReaderResult (Some url) \<Longrightarrow> js_includes url CHR '','' \<Longrightarrow>
      resolveImageInput p input = ([FetchRequest input], Inr (Some (afterFirstComma url)))"
    for response b url
    by (simp add: resolveImageInput_def fetchAndConvert_converted)
  have failed: "\<exists>err. fetchAndConvert p input = Inl err"
    if "(\<exists>e. fetch p input = Inl e) \<or>
       (\<exists>response. fetch p input = Inr response \<and>
          (\<not> ok response \<or>
           (\<exists>e. blobOutcome response = Inl e) \<or>
           (\<exists>b. blobOutcome response = Inr b \<and>
              (readAsDataURL p b = ReaderError \<or>
               readAsDataURL p b = ReaderResult None \<or>
               readAsDataURL p b = ReaderResult (Some [])))))"
    using that by (auto simp add: fetchAndConvert_def fileToGenerativePart_def)
  have fallback: "resolveImageInput p input =
      ([FetchRequest input, ImageLoad input], canvasFallback p input)"
    if "\<not> js_startsWith input ''data:''" and "fetchAndConvert p input = Inl err" for err
    using that by (simp add: resolveImageInput_def)
  have rejects: "\<exists>msg. canvasFallback p input = Inl (Error msg)"
    if "\<forall>d. loadImage p input \<noteq> ImageLoaded (DataURL d)"
  proof (cases "loadImage p input")
    case ImageError
    then show ?thesis by (simp add: canvasFallback_def)
  next
    case (ImageLoaded oc)
    with that show ?thesis by (cases oc) (simp_all add: canvasFallback_def)
  qed
  have outcome: "(loadImage p input = ImageError \<longrightarrow>
          canvasFallback p input = Inl (Error ''Failed to load image resource'')) \<and>
       (loadImage p input = ImageLoaded NoContext \<longrightarrow>
          canvasFallback p input = Inl (Error ''Canvas context failed'')) \<and>
       (loadImage p input = ImageLoaded TaintedCanvas \<longrightarrow>
          canvasFallback p input = Inl (Error ''Canvas tainted, CORS blocked'')) \<and>
       (\<forall>d. loadImage p input = ImageLoaded (DataURL d) \<and> js_includes d CHR '','' \<longrightarrow>
          canvasFallback p input = Inr (Some (afterFirstComma d)))"
    by (simp add: canvasFallback_def data)
  have first: "js_startsWith input ''data:'' \<and> js_includes input CHR '','' \<longrightarrow>
      resolveImageInput p input = ([], Inr (Some (afterFirstComma input)))"
    by (simp add: resolveImageInput_def data)
  have second: "fst (resolveImageInput p input) = [FetchRequest input, ImageLoad input] \<and>
       (loadImage p input = ImageError \<longrightarrow>
          snd (resolveImageInput p input) = Inl (Error ''Failed to load image resource'')) \<and>
       (loadImage p input = ImageLoaded NoContext \<longrightarrow>
          snd (resolveImageInput p input) = Inl (Error ''Canvas context failed'')) \<and>
       (loadImage p input = ImageLoaded TaintedCanvas \<longrightarrow>
          snd (resolveImageInput p input) = Inl (Error ''Canvas tainted, CORS blocked'')) \<and>
       (\<forall>d. loadImage p input = ImageLoaded (DataURL d) \<and> js_includes d CHR '','' \<longrightarrow>
          snd (resolveImageInput p input) = Inr (Some (afterFirstComma d))) \<and>
       ((\<forall>d. loadImage p input \<noteq> ImageLoaded (DataURL d)) \<longrightarrow>
          (\<exists>msg. snd (resolveImageInput p input) = Inl (Error msg)))"
    if nd: "\<not> js_startsWith input ''data:''"
      and f: "(\<exists>e. fetch p input = Inl e) \<or>
       (\<exists>response. fetch p input = Inr response \<and>
          (\<not> ok response \<or>
           (\<exists>e. blobOutcome response = Inl e) \<or>
           (\<exists>b. blobOutcome response = Inr b \<and>
              (readAsDataURL p b = ReaderError \<or>
               readAsDataURL p b = ReaderResult None \<or>
               readAsDataURL p b = ReaderResult (Some [])))))"
  proof -
    from failed [OF f] obtain err where "fetchAndConvert p input = Inl err" ..
    with nd have "resolveImageInput p input =
        ([FetchRequest input, ImageLoad input], canvasFallback p input)"
      by (rule fallback)
    with outcome rejects show ?thesis by simp
  qed
  from first direct second show ?thesis by blast
qed

text \<open>On a platform where every request fails, a data URL still resolves to its
  payload without a request, and a remote URL is rejected after the fetch and the image
  load. On a platform where the fetch succeeds but the reader reports an error, the
  fallback's data URL gives the payload.\<close>

theorem C9_witness:
  "resolveImageInput blockedPlatform ''data:image/png;base64,AAAA'' = ([], Inr (Some ''AAAA'')) \<and>
   resolveImageInput blockedPlatform ''https://i.imgflip.com/1ur9b0.jpg'' =
     ([FetchRequest ''https://i.imgflip.com/1ur9b0.jpg'', ImageLoad ''https://i.imgflip.com/1ur9b0.jpg''],
      Inl (Error ''Failed to load image resource'')) \<and>
   resolveImageInput readerFailsPlatform ''https://i.imgflip.com/1ur9b0.jpg'' =
     ([FetchRequest ''https://i.imgflip.com/1ur9b0.jpg'', ImageLoad ''https://i.imgflip.com/1ur9b0.jpg''],
      Inr (Some ''BBBB''))"
proof -
  let ?url = "''https://i.imgflip.com/1ur9b0.jpg''"
  have a: "js_startsWith ''data:image/png;base64,AAAA'' ''data:'' \<and>
      js_includes ''data:image/png;base64,AAAA'' CHR '',''"
    by (simp add: js_startsWith_def js_includes_def)
  have b: "afterFirstComma ''data:image/png;base64,AAAA'' = ''AAAA''"
    by (simp add: afterFirstComma_def)
  have c: "\<not> js_startsWith ?url ''data:''"
    by (simp add: js_startsWith_def)
  have d: "fetch blockedPlatform ?url = Inl (PlatformError ''TypeError'')"
    by (simp add: blockedPlatform_def)
  have e: "loadImage blockedPlatform ?url = ImageError"
    by (simp add: blockedPlatform_def)
  have f: "fetch readerFailsPlatform ?url =
      Inr \<lparr>ok = True, statusText = ''OK'', blobOutcome = Inr ''bytes''\<rparr>"
    by (simp add: readerFailsPlatform_def)
  have g: "readAsDataURL readerFailsPlatform ''bytes'' = ReaderError"
    by (simp add: readerFailsPlatform_def)
  have h: "loadImage readerFailsPlatform ?url = ImageLoaded (DataURL ''data:image/png;base64,BBBB'')"
    by (simp add: readerFailsPlatform_def)
  have i: "js_includes ''data:image/png;base64,BBBB'' CHR '','' \<and>
      afterFirstComma ''data:image/png;base64,BBBB'' = ''BBBB''"
    by (simp add: js_includes_def afterFirstComma_def)
  from C9_resolveImageInput_paths [of "''data:image/png;base64,AAAA''" blockedPlatform] a b
  have first: "resolveImageInput blockedPlatform ''data:image/png;base64,AAAA'' =
      ([], Inr (Some ''AAAA''))"
    by simp
  from C9_resolveImageInput_paths [of ?url blockedPlatform] c d e
  have second: "resolveImageInput blockedPlatform ?url =
     ([FetchRequest ?url, ImageLoad ?url], Inl (Error ''Failed to load image resource''))"
    by (simp add: prod_eq_iff)
  from C9_resolveImageInput_paths [of ?url readerFailsPlatform] c f g h i
  have third: "resolveImageInput readerFailsPlatform ?url =
     ([FetchRequest ?url, ImageLoad ?url], Inr (Some ''BBBB''))"
    by (simp add: prod_eq_iff)
  from first second third show ?thesis by simp
qed

text \<open>The claim as stated fails: the input \<open>data:abc\<close> starts with \<open>data:\<close> and has no
  comma; it resolves to itself, prefix included, with no request made.\<close>

theorem C9_counterexample:
  "js_startsWith ''data:abc'' ''data:'' \<and>
   resolveImageInput blockedPlatform ''data:abc'' = ([], Inr (Some ''data:abc''))"
  by (simp add: resolveImageInput_def base64ToGenerativePart_def js_startsWith_def
      js_includes_def)

section \<open>Claims about caption updates\<close>

text \<open>
  Claim C10. For every identifier and every partial update, \<open>updateCaption\<close> keeps the
  length of the collection, keeps every caption at its index, changes only captions with
  the given identifier (by the spread of the update), leaves every other caption as it
  was, and changes nothing in the state when no caption has the identifier.
\<close>

theorem C10_updateCaption_frame:
  "length (captions (updateCaption ident updates st)) = length (captions st) \<and>
   (\<forall>k < length (captions st).
      captions (updateCaption ident updates st) ! k =
        (if cid (captions st ! k) = ident then spread (captions st ! k) updates
         else captions st ! k)) \<and>
   (\<forall>k < length (captions st). cid (captions st ! k) \<noteq> ident \<longrightarrow>
      captions (updateCaption ident updates st) ! k = captions st ! k) \<and>
   (ident \<notin> cid ` set (captions st) \<longrightarrow> updateCaption ident updates st = st)"
proof -
  have same: "ident \<notin> cid ` set (captions st) \<Longrightarrow>
      map (\<lambda>c. if cid c = ident then spread c updates else c) (captions st) = captions st"
    by (rule map_idI) auto
  show ?thesis
    by (simp add: updateCaption_def same)
qed

text \<open>A collection of two captions: updating identifier \<open>2\<close> leaves the caption
  \<open>1\<close> as it was, and updating the absent identifier \<open>3\<close> changes nothing.\<close>

theorem C10_witness:
  "captions (updateCaption ''2'' (noUpdates\<lparr>p_text := Some ''B''\<rparr>)
      (initialApp\<lparr>captions :=
        [\<lparr>cid = ''1'', ctext = ''a'', cx = 1, cy = 2, color = ''#FFFFFF'', fontSize = 32, isDragging = None\<rparr>,
         \<lparr>cid = ''2'', ctext = ''b'', cx = 3, cy = 4, color = ''#FFFFFF'', fontSize = 32, isDragging = None\<rparr>]\<rparr>)) ! 0
    = \<lparr>cid = ''1'', ctext = ''a'', cx = 1, cy = 2, color = ''#FFFFFF'', fontSize = 32, isDragging = None\<rparr> \<and>
   updateCaption ''3'' (noUpdates\<lparr>p_text := Some ''B''\<rparr>)
      (initialApp\<lparr>captions :=
        [\<lparr>cid = ''1'', ctext = ''a'', cx = 1, cy = 2, color = ''#FFFFFF'', fontSize = 32, isDragging = None\<rparr>,
         \<lparr>cid = ''2'', ctext = ''b'', cx = 3, cy = 4, color = ''#FFFFFF'', fontSize = 32, isDragging = None\<rparr>]\<rparr>)
    = initialApp\<lparr>captions :=
        [\<lparr>cid = ''1'', ctext = ''a'', cx = 1, cy = 2, color = ''#FFFFFF'', fontSize = 32, isDragging = None\<rparr>,
         \<lparr>cid = ''2'', ctext = ''b'', cx = 3, cy = 4, color = ''#FFFFFF'', fontSize = 32, isDragging = None\<rparr>]\<rparr>"
  using C10_updateCaption_frame [of "''2''" "noUpdates\<lparr>p_text := Some ''B''\<rparr>"
      "initialApp\<lparr>captions :=
        [\<lparr>cid = ''1'', ctext = ''a'', cx = 1, cy = 2, color = ''#FFFFFF'', fontSize = 32, isDragging = None\<rparr>,
         \<lparr>cid = ''2'', ctext = ''b'', cx = 3, cy = 4, color = ''#FFFFFF'', fontSize = 32, isDragging = None\<rparr>]\<rparr>"]
    C10_updateCaption_frame [of "''3''" "noUpdates\<lparr>p_text := Some ''B''\<rparr>"
      "initialApp\<lparr>captions :=
        [\<lparr>cid = ''1'', ctext = ''a'', cx = 1, cy = 2, color = ''#FFFFFF'', fontSize = 32, isDragging = None\<rparr>,
         \<lparr>cid = ''2'', ctext = ''b'', cx = 3, cy = 4, color = ''#FFFFFF'', fontSize = 32, isDragging = None\<rparr>]\<rparr>"]
  by simp

end
